theory Spec2Isabelle
  imports Main "HOL-Library.AList"
begin

section \<open>Values of the settings objects\<close>

text \<open>
  The gulpfile handles two JavaScript objects, the literal of defaults (lines 54-83) and
  whatever the module \<^verbatim>\<open>./.local\<close> exports. The literal holds booleans, strings, nested
  plain objects, an array of strings, one regular expression and one arrow function; a
  settings module may also export numbers, \<open>null\<close> and \<open>undefined\<close>. A value is a tree over
  these shapes. Numbers are integers, \<open>Fun\<close> and \<open>RegExp\<close> carry their source text, an
  array is the list of its elements (a hole reads as \<open>undefined\<close>), and a plain object is
  the list of its own properties in the order they were created. The keys of a JavaScript
  object are pairwise distinct, which \<open>wf_val\<close> states.
\<close>

datatype jsval =
    Undefined
  | Null
  | Bool bool
  | Num int
  | Str string
  | Fun string
  | RegExp string
  | Arr "jsval list"
  | Obj "(string \<times> jsval) list"

type_synonym props = "(string \<times> jsval) list"

text \<open>\<open>object[key]\<close>: the value of a property, \<open>undefined\<close> when the key is absent.\<close>

definition prop_get :: "props \<Rightarrow> string \<Rightarrow> jsval" where
  "prop_get ps k = (case map_of ps k of None \<Rightarrow> Undefined | Some v \<Rightarrow> v)"

text \<open>
  \<open>object[key] = value\<close>: an existing property keeps its place, a new one is appended.
\<close>

definition prop_put :: "props \<Rightarrow> string \<Rightarrow> jsval \<Rightarrow> props" where
  "prop_put ps k v = AList.update k v ps"


section \<open>The merge of lodash\<close>

text \<open>
  \<open>_.merge(object, source)\<close> is lodash's, not the repository's, and is modelled after
  lodash 4 (\<open>baseMerge\<close>, \<open>baseMergeDeep\<close>, \<open>assignMergeValue\<close>). Its documentation:
  "Recursively merges own and inherited enumerable string keyed properties of source
  objects into the destination object. Source properties that resolve to undefined are
  skipped if a destination value exists. Array and plain object properties are merged
  recursively. Other objects and value types are overridden by assignment."

  \<open>merge_val ov sv\<close> is the value a key holds after the merge, where \<open>ov\<close> is what the
  destination held at that key (\<open>Undefined\<close> for an absent key) and \<open>sv\<close> the source's
  value:
  \<^item> \<open>sv\<close> undefined: the destination keeps \<open>ov\<close> (and an absent key is created holding
    \<open>undefined\<close>);
  \<^item> \<open>sv\<close> a primitive, a function or a regular expression: assigned;
  \<^item> \<open>sv\<close> an array: merged index by index into \<open>ov\<close> when that is an array, into a fresh
    \<open>[]\<close> otherwise;
  \<^item> \<open>sv\<close> a plain object: merged key by key into \<open>ov\<close> when that is a plain object, into a
    fresh \<open>{}\<close> when \<open>ov\<close> is a primitive.

  The result \<open>None\<close> marks the situations this value model cannot express, where lodash
  attaches properties to, or reads indices off, an object of another shape: a plain
  object merged into an array, a regular expression or a function (which the releases of
  lodash 4 also treat differently), and an array merged into a plain object that is
  array-like (owns a valid \<open>length\<close>). \<open>None\<close> is never a failure of the gulpfile.
\<close>

definition array_like :: "props \<Rightarrow> bool" where
  "array_like ps =
     (case prop_get ps ''length'' of
        Num n \<Rightarrow> 0 \<le> n \<and> n \<le> 9007199254740991
      | _ \<Rightarrow> False)"

fun merge_val :: "jsval \<Rightarrow> jsval \<Rightarrow> jsval option"
  and merge_arr :: "jsval list \<Rightarrow> jsval list \<Rightarrow> jsval list option"
  and merge_props :: "props \<Rightarrow> props \<Rightarrow> props option"
where
  "merge_val ov Undefined = Some ov"
| "merge_val ov Null = Some Null"
| "merge_val ov (Bool b) = Some (Bool b)"
| "merge_val ov (Num n) = Some (Num n)"
| "merge_val ov (Str s) = Some (Str s)"
| "merge_val ov (Fun f) = Some (Fun f)"
| "merge_val ov (RegExp r) = Some (RegExp r)"
| "merge_val ov (Arr ss) =
     (case ov of
        Arr os \<Rightarrow> map_option Arr (merge_arr os ss)
      | Obj ops \<Rightarrow> if array_like ops then None else map_option Arr (merge_arr [] ss)
      | _ \<Rightarrow> map_option Arr (merge_arr [] ss))"
| "merge_val ov (Obj sps) =
     (case ov of
        Obj ops \<Rightarrow> map_option Obj (merge_props ops sps)
      | Arr os \<Rightarrow> None
      | RegExp r \<Rightarrow> None
      | Fun f \<Rightarrow> None
      | _ \<Rightarrow> map_option Obj (merge_props [] sps))"
| "merge_arr os [] = Some os"
| "merge_arr [] (s # ss) =
     (case merge_val Undefined s of
        None \<Rightarrow> None
      | Some v \<Rightarrow> map_option ((#) v) (merge_arr [] ss))"
| "merge_arr (ov # os) (s # ss) =
     (case merge_val ov s of
        None \<Rightarrow> None
      | Some v \<Rightarrow> map_option ((#) v) (merge_arr os ss))"
| "merge_props ops [] = Some ops"
| "merge_props ops ((k, sv) # sps) =
     (case merge_val (prop_get ops k) sv of
        None \<Rightarrow> None
      | Some v \<Rightarrow> merge_props (prop_put ops k v) sps)"

text \<open>
  \<open>_.merge(object, source)\<close> itself. lodash skips a falsy source; a source without
  enumerable properties (a number, \<open>true\<close>, a function, a regular expression, \<open>[]\<close>) leaves
  the destination as it is. A non-empty string or array as the source (lodash copies its
  indices as keys) and a destination that is not a plain object are not expressed.
\<close>

definition lodash_merge :: "jsval \<Rightarrow> jsval \<Rightarrow> jsval option" where
  "lodash_merge object source =
     (case object of
        Obj ops \<Rightarrow>
          (case source of
             Obj sps \<Rightarrow> map_option Obj (merge_props ops sps)
           | Arr xs \<Rightarrow> if xs = [] then Some object else None
           | Str s \<Rightarrow> if s = [] then Some object else None
           | _ \<Rightarrow> Some object)
      | _ \<Rightarrow> None)"

section \<open>Diagnostics\<close>

text \<open>
  \<open>gutil.log\<close> writes one line per call. A line is kept as the pieces the gulpfile
  concatenates: text styled by \<open>gutil.colors\<close> (the styles in the order they are chained,
  and the value handed to them) and plain text.
\<close>

datatype style = BgMagenta | BgRed | Red | Bold

datatype segment = Styled "style list" jsval | Plain string

type_synonym log_line = "segment list"

section \<open>Local settings and the configuration (lines 41-83)\<close>

text \<open>
  \<open>require('./.local')\<close> either throws (no such module, or the module fails while it
  loads) or returns what the module exports.
\<close>

datatype require_result = Throws | Exports jsval

definition banner_local :: log_line where
  "banner_local = [Styled [BgMagenta, Bold] (Str '' === Local build === '')]"

definition banner_production :: log_line where
  "banner_production = [Styled [BgMagenta, Bold] (Str '' === Production build === '')]"

text \<open>
  The \<open>try\<close> block logs the local banner before it requires the module, so a missing
  module leaves both banners in the log. Result: the value of \<open>local\<close> and the log.
\<close>

definition load_local :: "require_result \<Rightarrow> log_line list \<Rightarrow> jsval \<times> log_line list" where
  "load_local r lg =
     (case r of
        Throws \<Rightarrow> (Obj [], lg @ [banner_local, banner_production])
      | Exports v \<Rightarrow> (v, lg @ [banner_local]))"

definition config_defaults :: jsval where
  "config_defaults = Obj
     [(''sourcemaps'', Bool True),
      (''sassSource'', Str ''./resources/assets/sass''),
      (''appSource'', Str ''./resources/assets/app''),
      (''jsSource'', Str ''./resources/assets/js''),
      (''browsersync'', Obj
         [(''open'', Bool False),
          (''notify'', Bool False),
          (''snippetOptions'', Obj
             [(''rule'', Obj
                [(''match'', RegExp (''/<'' @ [CHR 0x5C] @ ''/body>/i'')),
                 (''fn'', Fun ''(snippet, match) => snippet + match'')])])]),
      (''supportedBrowsers'', Arr
         [Str ''iOS 9'', Str ''ie >= 10'', Str ''last 2 Chrome versions''])]"

definition config :: "jsval \<Rightarrow> jsval option" where
  "config local = lodash_merge config_defaults local"

text \<open>\<open>config.key\<close>. The configuration is the destination of the merge, a plain object.\<close>

definition config_get :: "jsval \<Rightarrow> string \<Rightarrow> jsval" where
  "config_get c k = (case c of Obj ps \<Rightarrow> prop_get ps k | _ \<Rightarrow> Undefined)"

definition config_value :: "jsval \<Rightarrow> string \<Rightarrow> jsval option" where
  "config_value local k = map_option (\<lambda>c. config_get c k) (config local)"



section \<open>String concatenation\<close>

text \<open>
  The paths are built with \<open>+\<close> from a setting and a string literal, so the setting is
  converted to a string as JavaScript does: a string is itself, \<open>true\<close>, \<open>null\<close> and
  \<open>undefined\<close> are their names, a safe integer its decimal digits, a function or a
  regular expression its source text, an array its elements joined by commas (\<open>null\<close> and
  \<open>undefined\<close> elements as empty strings), a plain object \<open>[object Object]\<close>. \<open>None\<close>: an
  integer outside the safe range, and an object that owns a \<open>toString\<close> or \<open>valueOf\<close>
  property, which JavaScript would call.
\<close>

fun dec :: "nat \<Rightarrow> string" where
  "dec n = (if n < 10 then [char_of (48 + n)] else dec (n div 10) @ [char_of (48 + n mod 10)])"

definition num_to_string :: "int \<Rightarrow> string option" where
  "num_to_string n =
     (if \<bar>n\<bar> > 9007199254740991 then None
      else if n < 0 then Some (''-'' @ dec (nat (- n)))
      else Some (dec (nat n)))"

fun to_string :: "jsval \<Rightarrow> string option"
  and join_elems :: "jsval list \<Rightarrow> string option"
where
  "to_string Undefined = Some ''undefined''"
| "to_string Null = Some ''null''"
| "to_string (Bool b) = Some (if b then ''true'' else ''false'')"
| "to_string (Num n) = num_to_string n"
| "to_string (Str s) = Some s"
| "to_string (Fun f) = Some f"
| "to_string (RegExp r) = Some r"
| "to_string (Arr xs) = join_elems xs"
| "to_string (Obj ps) =
     (if ''toString'' \<in> fst ` set ps \<or> ''valueOf'' \<in> fst ` set ps then None
      else Some ''[object Object]'')"
| "join_elems [] = Some []"
| "join_elems (x # xs) =
     (case (if x = Undefined \<or> x = Null then Some [] else to_string x) of
        None \<Rightarrow> None
      | Some a \<Rightarrow>
          (case xs of
             [] \<Rightarrow> Some a
           | _ # _ \<Rightarrow> map_option (\<lambda>b. a @ '','' @ b) (join_elems xs)))"

text \<open>\<open>value + 'literal'\<close>.\<close>

definition plus_str :: "jsval \<Rightarrow> string \<Rightarrow> string option" where
  "plus_str v lit = map_option (\<lambda>a. a @ lit) (to_string v)"

section \<open>The error handler (lines 94-97)\<close>

text \<open>
  The effects of the handler are one line of the log and the event \<open>end\<close> emitted on
  \<open>this\<close>, the stream the handler is registered on; a stream is named by its position in
  its pipeline. Reading \<open>error.message\<close> throws a TypeError when \<open>error\<close> is \<open>null\<close> or
  \<open>undefined\<close>; it is \<open>undefined\<close> on a value without that property.
\<close>

record run_state =
  log :: "log_line list"
  ended :: "nat list"

datatype exception = TypeError

definition error_message :: "jsval \<Rightarrow> exception + jsval" where
  "error_message error =
     (case error of
        Undefined \<Rightarrow> Inl TypeError
      | Null \<Rightarrow> Inl TypeError
      | Obj ps \<Rightarrow> Inr (prop_get ps ''message'')
      | _ \<Rightarrow> Inr Undefined)"

definition error_line :: "jsval \<Rightarrow> log_line" where
  "error_line msg = [Styled [BgRed, Bold] (Str ''  ERROR ''), Plain '' '', Styled [Red, Bold] msg]"

definition onError :: "nat \<Rightarrow> jsval \<Rightarrow> run_state \<Rightarrow> exception + run_state" where
  "onError this error s =
     (case error_message error of
        Inl x \<Rightarrow> Inl x
      | Inr msg \<Rightarrow> Inr (s\<lparr>log := log s @ [error_line msg], ended := ended s @ [this]\<rparr>))"

section \<open>Task registry (lines 103, 109, 138, 146, 187, 224)\<close>

definition task_deps :: "(string \<times> string list) list" where
  "task_deps =
     [(''default'', [''app'', ''vendors'', ''sass'']),
      (''watch'', [''default'']),
      (''serve'', [''watch'']),
      (''app'', []),
      (''vendors'', []),
      (''sass'', [])]"

text \<open>Task \<open>serve\<close> hands \<open>config.browsersync\<close> to \<open>browserSync.init\<close> as it is.\<close>

definition serve_options :: "jsval \<Rightarrow> jsval" where
  "serve_options c = config_get c ''browsersync''"

section \<open>Watching (lines 109-132)\<close>

text \<open>
  Each call \<open>gulp.watch(globs, tasks)\<close> binds a list of globs to a list of task names.
  The fourth call has no tasks; its \<open>change\<close> events go to \<open>browserSync.reload\<close>.
\<close>

record binding =
  watch :: "string list"
  run :: "string list"

definition watch_bindings :: "jsval \<Rightarrow> binding list option" where
  "watch_bindings c =
     (case (plus_str (config_get c ''sassSource'') ''/**/*.scss'',
            plus_str (config_get c ''appSource'') ''/**/*.js'',
            plus_str (config_get c ''appSource'') ''/**/*.html'',
            plus_str (config_get c ''jsSource'') ''/**/*.js'') of
        (Some sass_glob, Some app_js, Some app_html, Some js_glob) \<Rightarrow>
          Some [\<lparr>watch = [sass_glob], run = [''sass'']\<rparr>,
                \<lparr>watch = [app_js, app_html], run = [''app'']\<rparr>,
                \<lparr>watch = [js_glob], run = [''vendors'']\<rparr>]
      | _ \<Rightarrow> None)"

definition reload_paths :: "string list" where
  "reload_paths = [''./public/js/app.js'', ''./public/js/vendors.js'', ''./public/css/app.css'']"

text \<open>
  The watcher is gulp's: when the file \<open>p\<close> changes, a binding fires if one of its globs
  matches \<open>p\<close>, and gulp starts the tasks of every binding that fires, together with their
  prerequisites. Which paths a glob matches is the watcher's business, so the matcher
  \<open>m\<close> (glob, then path) is a parameter.
\<close>

definition fires :: "(string \<Rightarrow> string \<Rightarrow> bool) \<Rightarrow> string \<Rightarrow> string list \<Rightarrow> bool" where
  "fires m p globs = list_ex (\<lambda>g. m g p) globs"

fun prerequisites_then :: "nat \<Rightarrow> string \<Rightarrow> string list" where
  "prerequisites_then 0 t = [t]"
| "prerequisites_then (Suc n) t =
     concat (map (prerequisites_then n)
       (case map_of task_deps t of None \<Rightarrow> [] | Some ds \<Rightarrow> ds)) @ [t]"

definition with_deps :: "string \<Rightarrow> string list" where
  "with_deps t = remdups (prerequisites_then (length task_deps) t)"

definition tasks_on_change :: "(string \<Rightarrow> string \<Rightarrow> bool) \<Rightarrow> binding list \<Rightarrow> string \<Rightarrow> string list" where
  "tasks_on_change m bs p =
     concat (map (\<lambda>b. concat (map with_deps (run b))) (filter (\<lambda>b. fires m p (watch b)) bs))"

definition reload_on_change :: "(string \<Rightarrow> string \<Rightarrow> bool) \<Rightarrow> jsval \<Rightarrow> string \<Rightarrow> bool" where
  "reload_on_change m c p = fires m p reload_paths"

text \<open>
  A matcher for examples: the pattern and the path are split at \<open>/\<close>; the segment \<open>**\<close>
  stands for any number of directories, \<open>*\<close> inside a segment for any characters.
\<close>

fun wild :: "string \<Rightarrow> string \<Rightarrow> bool" where
  "wild [] [] = True"
| "wild [] (x # xs) = False"
| "wild (c # cs) [] = (c = CHR ''*'' \<and> wild cs [])"
| "wild (c # cs) (x # xs) =
     (if c = CHR ''*'' then wild cs (x # xs) \<or> wild (c # cs) xs else c = x \<and> wild cs xs)"

fun segs_match :: "string list \<Rightarrow> string list \<Rightarrow> bool" where
  "segs_match [] [] = True"
| "segs_match [] (s # ss) = False"
| "segs_match (g # gs) [] = (g = ''**'' \<and> segs_match gs [])"
| "segs_match (g # gs) (s # ss) =
     (if g = ''**'' then segs_match gs (s # ss) \<or> segs_match (g # gs) ss
      else wild g s \<and> segs_match gs ss)"

fun split_path :: "string \<Rightarrow> string list" where
  "split_path [] = [[]]"
| "split_path (c # cs) =
     (if c = CHR ''/'' then [] # split_path cs
      else (case split_path cs of [] \<Rightarrow> [[c]] | s # ss \<Rightarrow> (c # s) # ss))"

definition glob_match :: "string \<Rightarrow> string \<Rightarrow> bool" where
  "glob_match g p = segs_match (split_path g) (split_path p)"

section \<open>Pipelines (lines 146-262)\<close>

text \<open>
  A task builds a chain of streams with \<open>.pipe\<close>. A pipeline is the list of its stages in
  that order, each with the flag whether \<open>.on('error', onError)\<close> follows it. The options
  objects are kept as the literals the task writes; a plugin of rollup is its name and
  its argument (\<open>Undefined\<close> for a call without one).
\<close>

record rollup_options =
  entry :: string
  format :: string
  moduleName :: string
  sourceMap :: jsval
  plugins :: "(string \<times> jsval) list"

datatype stage =
    Rollup rollup_options
  | Src string
  | Source string
  | Buffer
  | SourcemapsInit
  | SourcemapsWrite string
  | Sass jsval
  | Autoprefixer jsval
  | Csso jsval
  | Dest string

type_synonym pipeline = "(stage \<times> bool) list"

text \<open>
  Task \<open>app\<close>. \<open>JSON.stringify\<close> is the language's; it is the parameter \<open>stringify\<close>.
\<close>

definition app_rollup_options :: "(jsval \<Rightarrow> jsval) \<Rightarrow> jsval \<Rightarrow> jsval \<Rightarrow> rollup_options option" where
  "app_rollup_options stringify local c =
     (case (plus_str (config_get c ''appSource'') (''/'' @ ''app.js''),
            plus_str (config_get c ''appSource'') ''/**/*.html'') of
        (Some entry_path, Some html_glob) \<Rightarrow>
          Some \<lparr>entry = entry_path,
                format = ''iife'',
                moduleName = ''app.js'',
                sourceMap = config_get c ''sourcemaps'',
                plugins =
                  [(''html'', Obj
                     [(''include'', Str html_glob),
                      (''htmlMinifierOptions'', Obj
                         [(''collapseWhitespace'', Bool True),
                          (''collapseBooleanAttributes'', Bool True),
                          (''conservativeCollapse'', Bool True)])]),
                   (''replace'', Obj
                     [(''ENV_LOCAL'', stringify local),
                      (''exclude'', Str ''./node_modules/**'')]),
                   (''nodeResolve'', Obj [(''browser'', Bool True)]),
                   (''buble'', Undefined)]\<rparr>
      | _ \<Rightarrow> None)"

definition app_pipeline :: "(jsval \<Rightarrow> jsval) \<Rightarrow> jsval \<Rightarrow> jsval \<Rightarrow> pipeline option" where
  "app_pipeline stringify local c =
     map_option (\<lambda>opts.
       [(Rollup opts, True),
        (Source ''app.js'', False),
        (Buffer, False),
        (SourcemapsInit, False),
        (SourcemapsWrite ''.'', False),
        (Dest ''./public/js'', False)])
       (app_rollup_options stringify local c)"

text \<open>Task \<open>vendors\<close>.\<close>

definition vendors_rollup_options :: "jsval \<Rightarrow> rollup_options option" where
  "vendors_rollup_options c =
     (case (plus_str (config_get c ''jsSource'') (''/'' @ ''vendors.js''),
            plus_str (config_get c ''jsSource'') ''/**'') of
        (Some entry_path, Some js_glob) \<Rightarrow>
          Some \<lparr>entry = entry_path,
                format = ''iife'',
                moduleName = ''vendors.js'',
                sourceMap = config_get c ''sourcemaps'',
                plugins =
                  [(''nodeResolve'', Obj
                     [(''browser'', Bool True), (''preferBuiltins'', Bool False)]),
                   (''commonjs'', Obj
                     [(''include'', Arr [Str ''node_modules/**'', Str js_glob]),
                      (''sourceMap'', config_get c ''sourcemaps'')]),
                   (''buble'', Undefined)]\<rparr>
      | _ \<Rightarrow> None)"

definition vendors_pipeline :: "jsval \<Rightarrow> pipeline option" where
  "vendors_pipeline c =
     map_option (\<lambda>opts.
       [(Rollup opts, True),
        (Source ''vendors.js'', False),
        (Buffer, False),
        (SourcemapsInit, False),
        (SourcemapsWrite ''.'', False),
        (Dest ''./public/js'', False)])
       (vendors_rollup_options c)"

text \<open>Task \<open>sass\<close>.\<close>

definition autoprefixerOptions :: "jsval \<Rightarrow> jsval" where
  "autoprefixerOptions c = Obj [(''browsers'', config_get c ''supportedBrowsers'')]"

definition cssoOptions :: jsval where
  "cssoOptions = Obj [(''restructure'', Bool False)]"

definition sassOptions :: jsval where
  "sassOptions = Obj
     [(''includePaths'', Arr [Str ''node_modules'']),
      (''outputStyle'', Str ''compressed''),
      (''precision'', Str ''2'')]"

definition sass_pipeline :: "jsval \<Rightarrow> pipeline option" where
  "sass_pipeline c =
     map_option (\<lambda>glob.
       [(Src glob, False),
        (SourcemapsInit, False),
        (Sass sassOptions, True),
        (Autoprefixer (autoprefixerOptions c), True),
        (Csso cssoOptions, True),
        (SourcemapsWrite ''./'', False),
        (Dest ''./public/css'', False)])
       (plus_str (config_get c ''sassSource'') ''/**/*.scss'')"

definition source_of :: "pipeline \<Rightarrow> stage option" where
  "source_of p = (case p of [] \<Rightarrow> None | (st, h) # rest \<Rightarrow> Some st)"

definition dest_of :: "pipeline \<Rightarrow> stage option" where
  "dest_of p = (case p of [] \<Rightarrow> None | _ # _ \<Rightarrow> Some (fst (last p)))"

text \<open>Every string that occurs in a value, keys apart.\<close>

fun strings_of :: "jsval \<Rightarrow> string list" where
  "strings_of (Str s) = [s]"
| "strings_of (Arr xs) = concat (map strings_of xs)"
| "strings_of (Obj ps) = concat (map (\<lambda>p. strings_of (snd p)) ps)"
| "strings_of _ = []"

section \<open>Running a pipeline\<close>

text \<open>
  The stages are other people's tools; what a run needs of them is the record \<open>tools\<close>:
  the files \<open>gulp.src\<close> finds for a glob, the bundle rollup produces or the error it emits,
  and for each of the three style plugins the outcome on one file: an error, the file
  dropped (gulp-sass passes no partial on), or the new name and contents with the source
  map the plugin computed. A file carries its path relative to the destination, its
  contents and its \<open>sourceMap\<close> property.

  The plugins follow the protocol of gulp-sourcemaps: \<open>init\<close> gives a file without a
  \<open>sourceMap\<close> property one, a plugin updates the property of a file that has one, and
  \<open>write(dir)\<close> turns the property of each file into a second file \<open>name.map\<close> in \<open>dir\<close>
  (pushed before the file itself) and appends the comment that refers to it.
\<close>

record vfile =
  relative :: string
  contents :: string
  smap :: "string option"

type_synonym plugin_fn = "jsval \<Rightarrow> vfile \<Rightarrow> jsval + (string \<times> string \<times> string) option"

record tools =
  read_files :: "string \<Rightarrow> vfile list"
  make_bundle :: "rollup_options \<Rightarrow> jsval + string"
  init_map :: "vfile \<Rightarrow> string"
  sass_plugin :: plugin_fn
  autoprefixer_plugin :: plugin_fn
  csso_plugin :: plugin_fn
  mapping_comment :: "string \<Rightarrow> string"

definition updated :: "string \<times> string \<times> string \<Rightarrow> vfile \<Rightarrow> vfile" where
  "updated r f =
     (case r of (name, text, m) \<Rightarrow>
        \<lparr>relative = name, contents = text, smap = map_option (\<lambda>old. m) (smap f)\<rparr>)"

definition through :: "(vfile \<Rightarrow> jsval + (string \<times> string \<times> string) option) \<Rightarrow> vfile \<Rightarrow> jsval + vfile list" where
  "through t f =
     (case t f of
        Inl e \<Rightarrow> Inl e
      | Inr None \<Rightarrow> Inr []
      | Inr (Some r) \<Rightarrow> Inr [updated r f])"

fun each_file :: "(vfile \<Rightarrow> jsval + vfile list) \<Rightarrow> vfile list \<Rightarrow> jsval + vfile list" where
  "each_file t [] = Inr []"
| "each_file t (f # fs) =
     (case t f of
        Inl e \<Rightarrow> Inl e
      | Inr gs \<Rightarrow> (case each_file t fs of Inl e \<Rightarrow> Inl e | Inr hs \<Rightarrow> Inr (gs @ hs)))"

definition strip_slash :: "string \<Rightarrow> string" where
  "strip_slash d = (if d \<noteq> [] \<and> last d = CHR ''/'' then butlast d else d)"

definition path_join :: "string \<Rightarrow> string \<Rightarrow> string" where
  "path_join d name = (if strip_slash d = ''.'' then name else strip_slash d @ ''/'' @ name)"

definition write_map :: "tools \<Rightarrow> string \<Rightarrow> vfile \<Rightarrow> vfile list" where
  "write_map T d f =
     (case smap f of
        None \<Rightarrow> [f]
      | Some m \<Rightarrow>
          [\<lparr>relative = path_join d (relative f) @ ''.map'', contents = m, smap = None\<rparr>,
           f\<lparr>contents := contents f @ mapping_comment T (path_join d (relative f) @ ''.map'')\<rparr>])"

definition start_map :: "tools \<Rightarrow> vfile \<Rightarrow> vfile" where
  "start_map T f = (case smap f of None \<Rightarrow> f\<lparr>smap := Some (init_map T f)\<rparr> | Some m \<Rightarrow> f)"

definition into :: "string \<Rightarrow> vfile \<Rightarrow> vfile" where
  "into d f = f\<lparr>relative := d @ ''/'' @ relative f\<rparr>"

fun run_stage :: "tools \<Rightarrow> stage \<Rightarrow> vfile list \<Rightarrow> jsval + vfile list" where
  "run_stage T (Rollup opts) fs =
     (case make_bundle T opts of
        Inl e \<Rightarrow> Inl e
      | Inr code \<Rightarrow> Inr [\<lparr>relative = [], contents = code, smap = None\<rparr>])"
| "run_stage T (Src glob) fs = Inr (read_files T glob)"
| "run_stage T (Source name) fs = Inr (map (\<lambda>f. f\<lparr>relative := name\<rparr>) fs)"
| "run_stage T Buffer fs = Inr fs"
| "run_stage T SourcemapsInit fs = Inr (map (start_map T) fs)"
| "run_stage T (SourcemapsWrite d) fs = Inr (concat (map (write_map T d) fs))"
| "run_stage T (Sass opts) fs = each_file (through (sass_plugin T opts)) fs"
| "run_stage T (Autoprefixer opts) fs = each_file (through (autoprefixer_plugin T opts)) fs"
| "run_stage T (Csso opts) fs = each_file (through (csso_plugin T opts)) fs"
| "run_stage T (Dest d) fs = Inr (map (into d) fs)"

text \<open>
  A run ends in one of three ways: every stage passed and the files were written; a stage
  with the handler emitted an error, the handler ran and the pipeline was ended (which
  files had been written by then is not recorded); or the process took an uncaught
  exception, from a stage without a handler or from the handler itself. Reading and
  writing files are taken to succeed: the stages that can emit an error are rollup and the
  three style plugins.
\<close>

datatype outcome = Finished "vfile list" run_state | Stopped run_state | Crashed

fun run_from :: "tools \<Rightarrow> nat \<Rightarrow> pipeline \<Rightarrow> vfile list \<Rightarrow> run_state \<Rightarrow> outcome" where
  "run_from T i [] fs s = Finished fs s"
| "run_from T i ((st, handled) # rest) fs s =
     (case run_stage T st fs of
        Inr gs \<Rightarrow> run_from T (Suc i) rest gs s
      | Inl e \<Rightarrow>
          (if handled
           then (case onError i e s of Inl x \<Rightarrow> Crashed | Inr s' \<Rightarrow> Stopped s')
           else Crashed))"

definition run_pipeline :: "tools \<Rightarrow> pipeline \<Rightarrow> run_state \<Rightarrow> outcome" where
  "run_pipeline T p s = run_from T 0 p [] s"

text \<open>
  Files written in pairs, each map right before the file it belongs to.
\<close>

fun with_maps :: "vfile list \<Rightarrow> bool" where
  "with_maps [] = True"
| "with_maps [f] = False"
| "with_maps (m # f # rest) =
     (relative m = relative f @ ''.map'' \<and> smap m = None \<and> smap f \<noteq> None \<and> with_maps rest)"

text \<open>
  Stand-ins for the tools, to run the pipelines on examples: one style sheet
  \<open>app.scss\<close>, a compiler that renames it to \<open>app.css\<close>, and plugins that leave the
  contents alone.
\<close>

definition example_tools :: tools where
  "example_tools =
     \<lparr>read_files = (\<lambda>glob. [\<lparr>relative = ''app.scss'', contents = ''a{b:c}'', smap = None\<rparr>]),
      make_bundle = (\<lambda>opts. Inr ''(function(){})();''),
      init_map = (\<lambda>f. ''{}''),
      sass_plugin = (\<lambda>opts f. Inr (Some (''app.css'', contents f, ''{}''))),
      autoprefixer_plugin = (\<lambda>opts f. Inr (Some (relative f, contents f, ''{}''))),
      csso_plugin = (\<lambda>opts f. Inr (Some (relative f, contents f, ''{}''))),
      mapping_comment = (\<lambda>url. ''#'' @ url)\<rparr>"

definition failing_tools :: "jsval \<Rightarrow> tools" where
  "failing_tools e = example_tools\<lparr>sass_plugin := (\<lambda>opts f. Inl e), make_bundle := (\<lambda>opts. Inl e)\<rparr>"

definition start_state :: run_state where
  "start_state = \<lparr>log = [], ended = []\<rparr>"

section \<open>Example settings\<close>


definition example_merged :: jsval where
  "example_merged = Obj
     [(''sourcemaps'', Bool False),
      (''sassSource'', Str ''./resources/assets/sass''),
      (''appSource'', Str ''./resources/assets/app''),
      (''jsSource'', Str ''./resources/assets/js''),
      (''browsersync'', Obj
         [(''open'', Bool True),
          (''notify'', Bool False),
          (''snippetOptions'', Obj
             [(''rule'', Obj
                [(''match'', RegExp (''/<'' @ [CHR 0x5C] @ ''/body>/i'')),
                 (''fn'', Fun ''(snippet, match) => snippet + match'')])])]),
      (''supportedBrowsers'', Arr
         [Str ''last 1 version'', Str ''ie >= 10'', Str ''last 2 Chrome versions''])]"

section \<open>Running the tasks of a gulpfile loaded with given local settings\<close>

definition run_sass :: "tools \<Rightarrow> jsval \<Rightarrow> outcome option" where
  "run_sass T local =
     (case config local of
        None \<Rightarrow> None
      | Some c \<Rightarrow> map_option (\<lambda>p. run_pipeline T p start_state) (sass_pipeline c))"

definition run_app :: "tools \<Rightarrow> (jsval \<Rightarrow> jsval) \<Rightarrow> jsval \<Rightarrow> outcome option" where
  "run_app T stringify local =
     (case config local of
        None \<Rightarrow> None
      | Some c \<Rightarrow> map_option (\<lambda>p. run_pipeline T p start_state) (app_pipeline stringify local c))"

definition run_vendors :: "tools \<Rightarrow> jsval \<Rightarrow> outcome option" where
  "run_vendors T local =
     (case config local of
        None \<Rightarrow> None
      | Some c \<Rightarrow> map_option (\<lambda>p. run_pipeline T p start_state) (vendors_pipeline c))"

text \<open>Further example settings: source maps turned off; the three source directories moved.\<close>

definition sourcemaps_off :: jsval where
  "sourcemaps_off = Obj [(''sourcemaps'', Bool False)]"

definition custom_paths :: jsval where
  "custom_paths = Obj
     [(''sassSource'', Str ''./src/sass''),
      (''appSource'', Str ''./src/app''),
      (''jsSource'', Str ''./src/js''),
      (''dest'', Str ''./dist'')]"

definition custom_config :: jsval where
  "custom_config = Obj
     [(''sourcemaps'', Bool True),
      (''sassSource'', Str ''./src/sass''),
      (''appSource'', Str ''./src/app''),
      (''jsSource'', Str ''./src/js''),
      (''browsersync'', Obj
         [(''open'', Bool False),
          (''notify'', Bool False),
          (''snippetOptions'', Obj
             [(''rule'', Obj
                [(''match'', RegExp (''/<'' @ [CHR 0x5C] @ ''/body>/i'')),
                 (''fn'', Fun ''(snippet, match) => snippet + match'')])])]),
      (''supportedBrowsers'', Arr
         [Str ''iOS 9'', Str ''ie >= 10'', Str ''last 2 Chrome versions'']),
      (''dest'', Str ''./dist'')]"

text \<open>The destinations of the three pipelines, and the strings of the configuration.\<close>

definition task_dests :: "(jsval \<Rightarrow> jsval) \<Rightarrow> jsval \<Rightarrow> (stage option \<times> stage option \<times> stage option) option" where
  "task_dests stringify local =
     (case config local of
        None \<Rightarrow> None
      | Some c \<Rightarrow>
          (case (app_pipeline stringify local c, vendors_pipeline c, sass_pipeline c) of
             (Some a, Some v, Some s) \<Rightarrow> Some (dest_of a, dest_of v, dest_of s)
           | _ \<Rightarrow> None))"

definition config_strings :: "jsval \<Rightarrow> string list" where
  "config_strings local = (case config local of None \<Rightarrow> [] | Some c \<Rightarrow> strings_of c)"

text \<open>
  An error object is any value but \<open>null\<close> and \<open>undefined\<close>. The tools emit error objects;
  a pipeline is never silent when each of its stages that can fail has the handler.
\<close>

fun error_object :: "jsval \<Rightarrow> bool" where
  "error_object Undefined = False"
| "error_object Null = False"
| "error_object _ = True"

definition emits_error_objects :: "tools \<Rightarrow> bool" where
  "emits_error_objects T \<longleftrightarrow>
     (\<forall>opts e. make_bundle T opts = Inl e \<longrightarrow> error_object e)
     \<and> (\<forall>opts f e. sass_plugin T opts f = Inl e \<longrightarrow> error_object e)
     \<and> (\<forall>opts f e. autoprefixer_plugin T opts f = Inl e \<longrightarrow> error_object e)
     \<and> (\<forall>opts f e. csso_plugin T opts f = Inl e \<longrightarrow> error_object e)"

fun never_silent :: "pipeline \<Rightarrow> bool" where
  "never_silent [] = True"
| "never_silent ((st, h) # rest) =
     ((case st of Rollup x \<Rightarrow> h | Sass x \<Rightarrow> h | Autoprefixer x \<Rightarrow> h | Csso x \<Rightarrow> h | _ \<Rightarrow> True)
      \<and> never_silent rest)"


section \<open>Properties of the configuration\<close>

text \<open>
  C3. When \<open>require('./.local')\<close> throws, \<open>local\<close> stays the empty object, loading goes on
  to the merge, and the merge of any default mapping with it is that mapping; the
  configuration of the gulpfile is then its literal of defaults.
\<close>

theorem absent_override_keeps_defaults:
  "fst (load_local Throws lg) = Obj []
   \<and> lodash_merge (Obj D) (fst (load_local Throws lg)) = Some (Obj D)
   \<and> config (fst (load_local Throws lg)) = Some config_defaults"
  by (simp add: load_local_def lodash_merge_def config_def config_defaults_def)

subsection \<open>Facts about the merge\<close>























section \<open>Properties of the tasks\<close>

lemmas cfg_eval = config_def lodash_merge_def config_defaults_def prop_get_def prop_put_def
  config_get_def

lemmas pipe_eval = sass_pipeline_def app_pipeline_def vendors_pipeline_def
  app_rollup_options_def vendors_rollup_options_def plus_str_def
  autoprefixerOptions_def cssoOptions_def sassOptions_def

lemmas run_eval = run_pipeline_def start_state_def example_tools_def through_def updated_def
  start_map_def into_def write_map_def path_join_def strip_slash_def

lemma sass_pipeline_ignores_sourcemaps:
  "sass_pipeline (Obj (prop_put ps ''sourcemaps'' v)) = sass_pipeline (Obj ps)"
  by (simp add: sass_pipeline_def config_get_def prop_get_def prop_put_def update_conv'
      autoprefixerOptions_def)

text \<open>
  Whatever the configuration holds, a pipeline that finishes has written a map beside
  every artifact.
\<close>

lemma each_file_keeps_maps:
  "each_file (through t) fs = Inr gs \<Longrightarrow> \<forall>f \<in> set fs. smap f \<noteq> None
     \<Longrightarrow> \<forall>g \<in> set gs. smap g \<noteq> None"
proof (induction fs arbitrary: gs)
  case Nil
  then show ?case by simp
next
  case (Cons f fs)
  from Cons.prems(1) obtain xs ys where x: "through t f = Inr xs"
    and y: "each_file (through t) fs = Inr ys" and g: "gs = xs @ ys"
    by (auto split: sum.splits)
  from x Cons.prems(2) have "\<forall>g \<in> set xs. smap g \<noteq> None"
    by (auto simp: through_def updated_def split: sum.splits option.splits prod.splits)
  moreover from Cons.IH[OF y] Cons.prems(2) have "\<forall>g \<in> set ys. smap g \<noteq> None" by simp
  ultimately show ?case using g by auto
qed

lemma written_with_maps:
  "\<forall>f \<in> set fs. smap f \<noteq> None \<Longrightarrow> strip_slash d = ''.''
     \<Longrightarrow> with_maps (map (into e) (concat (map (write_map T d) fs)))"
  by (induction fs) (auto simp: write_map_def into_def path_join_def)

lemma start_map_has_map: "\<forall>g \<in> set (map (start_map T) fs). smap g \<noteq> None"
  by (auto simp: start_map_def split: option.splits)

lemma sass_maps_whatever_the_option:
  assumes "sass_pipeline c = Some p" and "run_pipeline T p s = Finished out s'"
  shows "with_maps out"
proof -
  from assms(1) obtain glob where p: "p =
       [(Src glob, False), (SourcemapsInit, False), (Sass sassOptions, True),
        (Autoprefixer (autoprefixerOptions c), True), (Csso cssoOptions, True),
        (SourcemapsWrite ''./'', False), (Dest ''./public/css'', False)]"
    by (auto simp: sass_pipeline_def)
  let ?f1 = "map (start_map T) (read_files T glob)"
  from assms(2) p obtain f2 f3 f4 where
    a: "each_file (through (sass_plugin T sassOptions)) ?f1 = Inr f2"
    and b: "each_file (through (autoprefixer_plugin T (autoprefixerOptions c))) f2 = Inr f3"
    and c: "each_file (through (csso_plugin T cssoOptions)) f3 = Inr f4"
    and o: "out = map (into ''./public/css'') (concat (map (write_map T ''./'') f4))"
    by (auto simp: run_pipeline_def split: sum.splits if_splits)
  have "\<forall>g \<in> set f4. smap g \<noteq> None"
    using each_file_keeps_maps[OF c each_file_keeps_maps[OF b each_file_keeps_maps[OF a start_map_has_map]]] .
  then show ?thesis unfolding o by (rule written_with_maps) (simp add: strip_slash_def)
qed

lemma rollup_maps_whatever_the_option:
  assumes "app_pipeline stringify local c = Some p \<or> vendors_pipeline c = Some p"
    and "run_pipeline T p s = Finished out s'"
  shows "with_maps out"
proof -
  from assms(1) obtain opts name where p: "p =
       [(Rollup opts, True), (Source name, False), (Buffer, False), (SourcemapsInit, False),
        (SourcemapsWrite ''.'', False), (Dest ''./public/js'', False)]"
    by (auto simp: app_pipeline_def vendors_pipeline_def)
  from assms(2) p obtain code where
    o: "out = map (into ''./public/js'') (concat (map (write_map T ''.'')
          (map (start_map T) (map (\<lambda>f. f\<lparr>relative := name\<rparr>) [\<lparr>relative = [], contents = code, smap = None\<rparr>]))))"
    by (auto simp: run_pipeline_def split: sum.splits if_splits)
  show ?thesis unfolding o
    by (rule written_with_maps[OF start_map_has_map]) (simp add: strip_slash_def)
qed

text \<open>
  C1. A map accompanies every artifact also when \<open>sourcemaps\<close> is off: with the override
  \<open>{sourcemaps: false}\<close> each of the three pipelines still passes its files through
  \<open>sourcemaps.init()\<close> and \<open>sourcemaps.write\<close> and writes \<open>app.css.map\<close>, \<open>app.js.map\<close> and
  \<open>vendors.js.map\<close> beside the artifacts. The option reaches only the options handed to
  rollup, and the style task never reads it.
\<close>

theorem maps_written_with_sourcemaps_off:
  "config_value sourcemaps_off ''sourcemaps'' = Some (Bool False)
   \<and> run_sass example_tools sourcemaps_off = Some (Finished
        [\<lparr>relative = ''./public/css/app.css.map'', contents = ''{}'', smap = None\<rparr>,
         \<lparr>relative = ''./public/css/app.css'', contents = ''a{b:c}#app.css.map'', smap = Some ''{}''\<rparr>]
        start_state)
   \<and> run_app example_tools id sourcemaps_off = Some (Finished
        [\<lparr>relative = ''./public/js/app.js.map'', contents = ''{}'', smap = None\<rparr>,
         \<lparr>relative = ''./public/js/app.js'', contents = ''(function(){})();#app.js.map'', smap = Some ''{}''\<rparr>]
        start_state)
   \<and> run_vendors example_tools sourcemaps_off = Some (Finished
        [\<lparr>relative = ''./public/js/vendors.js.map'', contents = ''{}'', smap = None\<rparr>,
         \<lparr>relative = ''./public/js/vendors.js'', contents = ''(function(){})();#vendors.js.map'', smap = Some ''{}''\<rparr>]
        start_state)"
  by (simp add: config_value_def run_sass_def run_app_def run_vendors_def sourcemaps_off_def
      cfg_eval pipe_eval run_eval)

text \<open>
  C2. When the three source settings of the configuration are strings, the
  pipelines read from them: the entry of \<open>app\<close> is \<open>appSource/app.js\<close>, the entry of
  \<open>vendors\<close> is \<open>jsSource/vendors.js\<close>, the style sheets are \<open>sassSource/**/*.scss\<close>.
  The destinations are the literals \<open>./public/js\<close> (app and vendors) and \<open>./public/css\<close>
  (sass), whatever the configuration holds.
\<close>

theorem task_paths:
  assumes "config_get c ''sassSource'' = Str s1"
    and "config_get c ''appSource'' = Str s2"
    and "config_get c ''jsSource'' = Str s3"
  shows "\<exists>a v s oa ov.
      app_pipeline stringify local c = Some a \<and> source_of a = Some (Rollup oa)
      \<and> entry oa = s2 @ ''/app.js'' \<and> dest_of a = Some (Dest ''./public/js'')
      \<and> vendors_pipeline c = Some v \<and> source_of v = Some (Rollup ov)
      \<and> entry ov = s3 @ ''/vendors.js'' \<and> dest_of v = Some (Dest ''./public/js'')
      \<and> sass_pipeline c = Some s \<and> source_of s = Some (Src (s1 @ ''/**/*.scss''))
      \<and> dest_of s = Some (Dest ''./public/css'')"
  using assms by (simp add: pipe_eval source_of_def dest_of_def)

lemma custom_merge: "config custom_paths = Some custom_config"
  by (simp add: custom_paths_def custom_config_def cfg_eval)

theorem task_paths_witness:
  "config custom_paths = Some custom_config
   \<and> config_get custom_config ''sassSource'' = Str ''./src/sass''
   \<and> config_get custom_config ''appSource'' = Str ''./src/app''
   \<and> config_get custom_config ''jsSource'' = Str ''./src/js''
   \<and> (\<exists>a v s oa ov.
      app_pipeline id custom_paths custom_config = Some a \<and> source_of a = Some (Rollup oa)
      \<and> entry oa = ''./src/app/app.js'' \<and> dest_of a = Some (Dest ''./public/js'')
      \<and> vendors_pipeline custom_config = Some v \<and> source_of v = Some (Rollup ov)
      \<and> entry ov = ''./src/js/vendors.js'' \<and> dest_of v = Some (Dest ''./public/js'')
      \<and> sass_pipeline custom_config = Some s \<and> source_of s = Some (Src ''./src/sass/**/*.scss'')
      \<and> dest_of s = Some (Dest ''./public/css''))"
proof -
  have h1: "config_get custom_config ''sassSource'' = Str ''./src/sass''"
    and h2: "config_get custom_config ''appSource'' = Str ''./src/app''"
    and h3: "config_get custom_config ''jsSource'' = Str ''./src/js''"
    by (simp_all add: custom_config_def config_get_def prop_get_def)
  show ?thesis
    using task_paths [OF h1 h2 h3, of id custom_paths] h1 h2 h3 custom_merge by simp
qed

text \<open>
  C2 for the destinations fails: with local settings that move every source directory
  and name a directory \<open>dest\<close>, the three pipelines still write to \<open>./public/js\<close> and
  \<open>./public/css\<close>, and neither string occurs anywhere in the merged configuration.
\<close>

theorem dests_not_in_config:
  "task_dests id custom_paths
     = Some (Some (Dest ''./public/js''), Some (Dest ''./public/js''), Some (Dest ''./public/css''))
   \<and> ''./public/js'' \<notin> set (config_strings custom_paths)
   \<and> ''./public/css'' \<notin> set (config_strings custom_paths)"
  by (simp add: task_dests_def config_strings_def custom_paths_def dest_of_def
      cfg_eval pipe_eval)

lemma each_file_all:
  assumes "\<And>f. t f = Inr (Some (r f))"
  shows "each_file (through t) fs = Inr (map (\<lambda>f. updated (r f) f) fs)"
  by (induction fs) (simp_all add: through_def assms)

text \<open>
  C6. The style pipeline is, in this order: read the style sheets, start the source maps,
  compile, add vendor prefixes for \<open>config.supportedBrowsers\<close>, minify with \<open>restructure\<close>
  off, write the source maps, write to \<open>./public/css\<close>. When the three plugins accept
  every file, each style sheet read is written as the minified form of the prefixed form
  of its compiled form, its map before it.
\<close>

theorem sass_stages_in_order:
  assumes src: "config_get c ''sassSource'' = Str s"
    and r1: "\<And>f. sass_plugin T sassOptions f = Inr (Some (compiled f))"
    and r2: "\<And>f. autoprefixer_plugin T (Obj [(''browsers'', config_get c ''supportedBrowsers'')]) f
               = Inr (Some (prefixed f))"
    and r3: "\<And>f. csso_plugin T (Obj [(''restructure'', Bool False)]) f = Inr (Some (minified f))"
  shows "\<exists>p. sass_pipeline c = Some p
    \<and> map fst p =
        [Src (s @ ''/**/*.scss''), SourcemapsInit, Sass sassOptions,
         Autoprefixer (Obj [(''browsers'', config_get c ''supportedBrowsers'')]),
         Csso (Obj [(''restructure'', Bool False)]),
         SourcemapsWrite ''./'', Dest ''./public/css'']
    \<and> run_pipeline T p st = Finished
         (map (into ''./public/css'')
           (concat (map (write_map T ''./'')
             (map (\<lambda>f. updated (minified f) f)
               (map (\<lambda>f. updated (prefixed f) f)
                 (map (\<lambda>f. updated (compiled f) f)
                   (map (start_map T) (read_files T (s @ ''/**/*.scss'')))))))))
         st"
proof -
  let ?p = "[(Src (s @ ''/**/*.scss''), False), (SourcemapsInit, False), (Sass sassOptions, True),
        (Autoprefixer (Obj [(''browsers'', config_get c ''supportedBrowsers'')]), True),
        (Csso (Obj [(''restructure'', Bool False)]), True),
        (SourcemapsWrite ''./'', False), (Dest ''./public/css'', False)]"
  have p: "sass_pipeline c = Some ?p"
    using src by (simp add: sass_pipeline_def plus_str_def autoprefixerOptions_def cssoOptions_def)
  have run: "run_pipeline T ?p st = Finished
         (map (into ''./public/css'')
           (concat (map (write_map T ''./'')
             (map (\<lambda>f. updated (minified f) f)
               (map (\<lambda>f. updated (prefixed f) f)
                 (map (\<lambda>f. updated (compiled f) f)
                   (map (start_map T) (read_files T (s @ ''/**/*.scss'')))))))))
         st"
    by (simp add: run_pipeline_def each_file_all[of _ compiled, OF r1]
        each_file_all[of _ prefixed, OF r2] each_file_all[of _ minified, OF r3])
  from p run show ?thesis by simp
qed

theorem sass_stages_in_order_witness:
  "config_get config_defaults ''sassSource'' = Str ''./resources/assets/sass''
   \<and> (\<forall>f. sass_plugin example_tools sassOptions f = Inr (Some (''app.css'', contents f, ''{}'')))
   \<and> (\<forall>f. autoprefixer_plugin example_tools
          (Obj [(''browsers'', config_get config_defaults ''supportedBrowsers'')]) f
        = Inr (Some (relative f, contents f, ''{}'')))
   \<and> (\<forall>f. csso_plugin example_tools (Obj [(''restructure'', Bool False)]) f
        = Inr (Some (relative f, contents f, ''{}'')))
   \<and> (\<exists>p. sass_pipeline config_defaults = Some p
      \<and> map fst p =
        [Src ''./resources/assets/sass/**/*.scss'', SourcemapsInit, Sass sassOptions,
         Autoprefixer (Obj [(''browsers'',
           Arr [Str ''iOS 9'', Str ''ie >= 10'', Str ''last 2 Chrome versions''])]),
         Csso (Obj [(''restructure'', Bool False)]),
         SourcemapsWrite ''./'', Dest ''./public/css'']
      \<and> run_pipeline example_tools p start_state = Finished
        [\<lparr>relative = ''./public/css/app.css.map'', contents = ''{}'', smap = None\<rparr>,
         \<lparr>relative = ''./public/css/app.css'', contents = ''a{b:c}#app.css.map'',
            smap = Some ''{}''\<rparr>]
        start_state)"
proof -
  have src: "config_get config_defaults ''sassSource'' = Str ''./resources/assets/sass''"
    by (simp add: config_defaults_def config_get_def prop_get_def)
  have br: "config_get config_defaults ''supportedBrowsers''
      = Arr [Str ''iOS 9'', Str ''ie >= 10'', Str ''last 2 Chrome versions'']"
    by (simp add: config_defaults_def config_get_def prop_get_def)
  have r1: "\<And>f. sass_plugin example_tools sassOptions f = Inr (Some (''app.css'', contents f, ''{}''))"
    by (simp add: example_tools_def)
  have r2: "\<And>f. autoprefixer_plugin example_tools
          (Obj [(''browsers'', config_get config_defaults ''supportedBrowsers'')]) f
        = Inr (Some (relative f, contents f, ''{}''))"
    by (simp add: example_tools_def)
  have r3: "\<And>f. csso_plugin example_tools (Obj [(''restructure'', Bool False)]) f
        = Inr (Some (relative f, contents f, ''{}''))"
    by (simp add: example_tools_def)
  have rd: "read_files example_tools ''./resources/assets/sass/**/*.scss''
      = [\<lparr>relative = ''app.scss'', contents = ''a{b:c}'', smap = None\<rparr>]"
    by (simp add: example_tools_def)
  have im: "init_map example_tools = (\<lambda>f. ''{}'')" and mc: "mapping_comment example_tools = (\<lambda>url. ''#'' @ url)"
    by (simp_all add: example_tools_def)
  note t = sass_stages_in_order [of config_defaults "''./resources/assets/sass''" example_tools
      "\<lambda>f. (''app.css'', contents f, ''{}'')" "\<lambda>f. (relative f, contents f, ''{}'')"
      "\<lambda>f. (relative f, contents f, ''{}'')" start_state, OF src r1 r2 r3]
  have "\<exists>p. sass_pipeline config_defaults = Some p
      \<and> map fst p =
        [Src ''./resources/assets/sass/**/*.scss'', SourcemapsInit, Sass sassOptions,
         Autoprefixer (Obj [(''browsers'',
           Arr [Str ''iOS 9'', Str ''ie >= 10'', Str ''last 2 Chrome versions''])]),
         Csso (Obj [(''restructure'', Bool False)]),
         SourcemapsWrite ''./'', Dest ''./public/css'']
      \<and> run_pipeline example_tools p start_state = Finished
        [\<lparr>relative = ''./public/css/app.css.map'', contents = ''{}'', smap = None\<rparr>,
         \<lparr>relative = ''./public/css/app.css'', contents = ''a{b:c}#app.css.map'',
            smap = Some ''{}''\<rparr>]
        start_state"
    using t
    by (simp add: br rd im mc updated_def start_map_def into_def write_map_def path_join_def
        strip_slash_def)
  with src r1 r2 r3 show ?thesis by simp
qed

subsection \<open>The error handler\<close>

lemma error_message_object: "error_object e \<Longrightarrow> \<exists>msg. error_message e = Inr msg"
  by (cases e) (simp_all add: error_message_def)

lemma each_file_failure: "each_file u fs = Inl e \<Longrightarrow> \<exists>f. u f = Inl e"
proof (induction fs)
  case Nil
  then show ?case by simp
next
  case (Cons f fs)
  show ?case
  proof (cases "u f")
    case (Inl x)
    with Cons.prems show ?thesis by auto
  next
    case (Inr y)
    with Cons.prems have "each_file u fs = Inl e" by (simp split: sum.splits)
    then show ?thesis by (rule Cons.IH)
  qed
qed

lemma through_failure: "through t f = Inl e \<Longrightarrow> t f = Inl e"
  by (simp add: through_def split: sum.splits option.splits prod.splits)

lemma each_file_error: "each_file (through t) fs = Inl e \<Longrightarrow> \<exists>f. t f = Inl e"
  using each_file_failure through_failure by blast

lemma stage_error_object:
  "emits_error_objects T \<Longrightarrow> run_stage T st fs = Inl e \<Longrightarrow> error_object e"
proof (cases st)
  case (Rollup x1)
  assume "emits_error_objects T" "run_stage T st fs = Inl e"
  with Rollup show ?thesis by (auto simp: emits_error_objects_def split: sum.splits)
next
  case (Sass o1)
  assume a: "emits_error_objects T" "run_stage T st fs = Inl e"
  with Sass obtain f where "sass_plugin T o1 f = Inl e" using each_file_error by fastforce
  with a show ?thesis by (auto simp: emits_error_objects_def)
next
  case (Autoprefixer o1)
  assume a: "emits_error_objects T" "run_stage T st fs = Inl e"
  with Autoprefixer obtain f where "autoprefixer_plugin T o1 f = Inl e" using each_file_error by fastforce
  with a show ?thesis by (auto simp: emits_error_objects_def)
next
  case (Csso o1)
  assume a: "emits_error_objects T" "run_stage T st fs = Inl e"
  with Csso obtain f where "csso_plugin T o1 f = Inl e" using each_file_error by fastforce
  with a show ?thesis by (auto simp: emits_error_objects_def)
qed simp_all

lemma onError_object:
  "error_object e \<Longrightarrow> \<exists>msg. error_message e = Inr msg
     \<and> onError this e s = Inr (s\<lparr>log := log s @ [error_line msg], ended := ended s @ [this]\<rparr>)"
  using error_message_object[of e] by (auto simp: onError_def)

lemma stage_no_error:
  "run_stage T st fs = Inl e \<Longrightarrow> (case st of Rollup x \<Rightarrow> True | Sass x \<Rightarrow> True | Autoprefixer x \<Rightarrow> True | Csso x \<Rightarrow> True | _ \<Rightarrow> False)"
  by (cases st) simp_all

lemma run_from_outcome:
  assumes "emits_error_objects T" and "never_silent p"
  shows "(\<exists>fs'. run_from T i p fs s = Finished fs' s)
     \<or> (\<exists>j e msg. error_message e = Inr msg
          \<and> run_from T i p fs s = Stopped (s\<lparr>log := log s @ [error_line msg], ended := ended s @ [j]\<rparr>))"
  using assms(2)
proof (induction p arbitrary: i fs)
  case Nil
  then show ?case by simp
next
  case (Cons a p)
  obtain st h where a: "a = (st, h)" by (cases a)
  show ?case
  proof (cases "run_stage T st fs")
    case (Inr gs)
    from Cons.prems a have "never_silent p" by simp
    from Cons.IH[OF this, of "Suc i" gs] show ?thesis by (simp add: a Inr)
  next
    case (Inl e)
    from stage_no_error[OF Inl] Cons.prems a have h: "h" by (cases st) simp_all
    from stage_error_object[OF assms(1) Inl] have "error_object e" .
    from onError_object[OF this, of i s] obtain msg where "error_message e = Inr msg"
      "onError i e s = Inr (s\<lparr>log := log s @ [error_line msg], ended := ended s @ [i]\<rparr>)"
      by blast
    then show ?thesis by (auto simp: a Inl h)
  qed
qed

lemma pipelines_never_silent:
  "sass_pipeline c = Some p \<Longrightarrow> never_silent p"
  "app_pipeline stringify local c = Some p \<Longrightarrow> never_silent p"
  "vendors_pipeline c = Some p \<Longrightarrow> never_silent p"
  by (auto simp: sass_pipeline_def app_pipeline_def vendors_pipeline_def)

text \<open>
  C7. Handed an error object, the handler returns normally; it has added exactly one line
  to the log, the label \<open>ERROR\<close> followed by the error's message, and has emitted \<open>end\<close>
  on the stream it is registered on. A stage with the handler that emits the error stops
  its pipeline; the run is not an uncaught exception.
\<close>

theorem onError_logs_once_and_ends:
  assumes "error_object error"
  shows "\<exists>msg. error_message error = Inr msg
     \<and> (\<forall>ps. error = Obj ps \<longrightarrow> msg = prop_get ps ''message'')
     \<and> onError this error s = Inr (s\<lparr>
          log := log s @ [[Styled [BgRed, Bold] (Str ''  ERROR ''), Plain '' '', Styled [Red, Bold] msg]],
          ended := ended s @ [this]\<rparr>)
     \<and> (run_stage T st fs = Inl error \<longrightarrow>
          run_from T this ((st, True) # rest) fs s = Stopped (s\<lparr>
            log := log s @ [[Styled [BgRed, Bold] (Str ''  ERROR ''), Plain '' '', Styled [Red, Bold] msg]],
            ended := ended s @ [this]\<rparr>))"
proof -
  from onError_object[OF assms, of this s] obtain msg where m: "error_message error = Inr msg"
    and o: "onError this error s = Inr (s\<lparr>log := log s @ [error_line msg], ended := ended s @ [this]\<rparr>)"
    by blast
  have "\<forall>ps. error = Obj ps \<longrightarrow> msg = prop_get ps ''message''"
    using m by (auto simp: error_message_def)
  with m o show ?thesis by (auto simp: error_line_def)
qed

theorem onError_logs_once_and_ends_witness:
  "error_object (Obj [(''message'', Str ''boom'')])
   \<and> (\<exists>msg. error_message (Obj [(''message'', Str ''boom'')]) = Inr msg
     \<and> msg = Str ''boom''
     \<and> onError 2 (Obj [(''message'', Str ''boom'')]) start_state = Inr \<lparr>
          log = [[Styled [BgRed, Bold] (Str ''  ERROR ''), Plain '' '', Styled [Red, Bold] msg]],
          ended = [2]\<rparr>)
   \<and> run_sass (failing_tools (Obj [(''message'', Str ''boom'')])) (Obj [])
       = Some (Stopped \<lparr>
          log = [[Styled [BgRed, Bold] (Str ''  ERROR ''), Plain '' '', Styled [Red, Bold] (Str ''boom'')]],
          ended = [2]\<rparr>)"
proof -
  have h: "error_object (Obj [(''message'', Str ''boom'')])" by simp
  have r: "run_sass (failing_tools (Obj [(''message'', Str ''boom'')])) (Obj [])
       = Some (Stopped \<lparr>
          log = [[Styled [BgRed, Bold] (Str ''  ERROR ''), Plain '' '', Styled [Red, Bold] (Str ''boom'')]],
          ended = [2]\<rparr>)"
    by (simp add: run_sass_def failing_tools_def cfg_eval pipe_eval run_eval onError_def
        error_message_def error_line_def)
  show ?thesis
    using onError_logs_once_and_ends [OF h, of 2 start_state] h r
    by (auto simp: start_state_def prop_get_def)
qed

subsection \<open>Watching\<close>

lemma with_deps_leaf:
  "with_deps ''sass'' = [''sass'']" "with_deps ''app'' = [''app'']"
  "with_deps ''vendors'' = [''vendors'']"
  by (simp_all add: with_deps_def task_deps_def)

text \<open>
  C8. The watch task binds the style glob to \<open>sass\<close>, the two application globs to \<open>app\<close>
  and the script glob to \<open>vendors\<close>. When a file changes, the tasks started are those of
  the bindings with a glob that matches it; a file that only the style glob matches
  starts \<open>sass\<close> and nothing else. This holds for every matcher.
\<close>

theorem change_runs_bound_tasks:
  assumes "config_get c ''sassSource'' = Str s1"
    and "config_get c ''appSource'' = Str s2"
    and "config_get c ''jsSource'' = Str s3"
  shows "watch_bindings c = Some
       [\<lparr>watch = [s1 @ ''/**/*.scss''], run = [''sass'']\<rparr>,
        \<lparr>watch = [s2 @ ''/**/*.js'', s2 @ ''/**/*.html''], run = [''app'']\<rparr>,
        \<lparr>watch = [s3 @ ''/**/*.js''], run = [''vendors'']\<rparr>]
     \<and> (\<forall>bs t. watch_bindings c = Some bs \<longrightarrow>
           (t \<in> set (tasks_on_change m bs p) \<longleftrightarrow>
             (\<exists>b \<in> set bs. fires m p (watch b) \<and> t \<in> set (run b))))
     \<and> (\<forall>bs. watch_bindings c = Some bs
          \<and> m (s1 @ ''/**/*.scss'') p \<and> \<not> m (s2 @ ''/**/*.js'') p
          \<and> \<not> m (s2 @ ''/**/*.html'') p \<and> \<not> m (s3 @ ''/**/*.js'') p
         \<longrightarrow> tasks_on_change m bs p = [''sass''])"
proof -
  let ?bs = "[\<lparr>watch = [s1 @ ''/**/*.scss''], run = [''sass'']\<rparr>,
              \<lparr>watch = [s2 @ ''/**/*.js'', s2 @ ''/**/*.html''], run = [''app'']\<rparr>,
              \<lparr>watch = [s3 @ ''/**/*.js''], run = [''vendors'']\<rparr>]"
  have b: "watch_bindings c = Some ?bs"
    using assms by (simp add: watch_bindings_def plus_str_def)
  have t: "tasks_on_change m ?bs p =
      (if m (s1 @ ''/**/*.scss'') p then [''sass''] else [])
      @ (if m (s2 @ ''/**/*.js'') p \<or> m (s2 @ ''/**/*.html'') p then [''app''] else [])
      @ (if m (s3 @ ''/**/*.js'') p then [''vendors''] else [])"
    by (simp add: tasks_on_change_def fires_def with_deps_leaf)
  have c1: "t \<in> set (tasks_on_change m ?bs p) \<longleftrightarrow>
           (\<exists>b \<in> set ?bs. fires m p (watch b) \<and> t \<in> set (run b))" for t
    unfolding t by (auto simp: fires_def)
  have c3: "m (s1 @ ''/**/*.scss'') p \<and> \<not> m (s2 @ ''/**/*.js'') p
          \<and> \<not> m (s2 @ ''/**/*.html'') p \<and> \<not> m (s3 @ ''/**/*.js'') p
         \<longrightarrow> tasks_on_change m ?bs p = [''sass'']"
    unfolding t by simp
  show ?thesis
  proof (intro conjI allI impI)
    show "watch_bindings c = Some ?bs" by (rule b)
  next
    fix bs t assume "watch_bindings c = Some bs"
    with b have "bs = ?bs" by simp
    then show "t \<in> set (tasks_on_change m bs p) \<longleftrightarrow>
           (\<exists>b \<in> set bs. fires m p (watch b) \<and> t \<in> set (run b))"
      using c1[of t] by simp
  next
    fix bs assume a: "watch_bindings c = Some bs
          \<and> m (s1 @ ''/**/*.scss'') p \<and> \<not> m (s2 @ ''/**/*.js'') p
          \<and> \<not> m (s2 @ ''/**/*.html'') p \<and> \<not> m (s3 @ ''/**/*.js'') p"
    with b have "bs = ?bs" by simp
    with a c3 show "tasks_on_change m bs p = [''sass'']" by simp
  qed
qed

theorem change_runs_bound_tasks_witness:
  "config_get config_defaults ''sassSource'' = Str ''./resources/assets/sass''
   \<and> config_get config_defaults ''appSource'' = Str ''./resources/assets/app''
   \<and> config_get config_defaults ''jsSource'' = Str ''./resources/assets/js''
   \<and> glob_match ''./resources/assets/sass/**/*.scss'' ''./resources/assets/sass/ui/app.scss''
   \<and> \<not> glob_match ''./resources/assets/app/**/*.js'' ''./resources/assets/sass/ui/app.scss''
   \<and> \<not> glob_match ''./resources/assets/app/**/*.html'' ''./resources/assets/sass/ui/app.scss''
   \<and> \<not> glob_match ''./resources/assets/js/**/*.js'' ''./resources/assets/sass/ui/app.scss''
   \<and> watch_bindings config_defaults = Some
       [\<lparr>watch = [''./resources/assets/sass/**/*.scss''], run = [''sass'']\<rparr>,
        \<lparr>watch = [''./resources/assets/app/**/*.js'', ''./resources/assets/app/**/*.html''],
           run = [''app'']\<rparr>,
        \<lparr>watch = [''./resources/assets/js/**/*.js''], run = [''vendors'']\<rparr>]
   \<and> tasks_on_change glob_match
       [\<lparr>watch = [''./resources/assets/sass/**/*.scss''], run = [''sass'']\<rparr>,
        \<lparr>watch = [''./resources/assets/app/**/*.js'', ''./resources/assets/app/**/*.html''],
           run = [''app'']\<rparr>,
        \<lparr>watch = [''./resources/assets/js/**/*.js''], run = [''vendors'']\<rparr>]
       ''./resources/assets/sass/ui/app.scss'' = [''sass'']"
proof -
  have h1: "config_get config_defaults ''sassSource'' = Str ''./resources/assets/sass''"
    and h2: "config_get config_defaults ''appSource'' = Str ''./resources/assets/app''"
    and h3: "config_get config_defaults ''jsSource'' = Str ''./resources/assets/js''"
    by (simp_all add: config_defaults_def config_get_def prop_get_def)
  have g1: "glob_match ''./resources/assets/sass/**/*.scss'' ''./resources/assets/sass/ui/app.scss''"
    by code_simp
  have g2: "\<not> glob_match ''./resources/assets/app/**/*.js'' ''./resources/assets/sass/ui/app.scss''"
    by code_simp
  have g3: "\<not> glob_match ''./resources/assets/app/**/*.html'' ''./resources/assets/sass/ui/app.scss''"
    by code_simp
  have g4: "\<not> glob_match ''./resources/assets/js/**/*.js'' ''./resources/assets/sass/ui/app.scss''"
    by code_simp
  note t = change_runs_bound_tasks [OF h1 h2 h3, of glob_match "''./resources/assets/sass/ui/app.scss''"]
  have b: "watch_bindings config_defaults = Some
       [\<lparr>watch = [''./resources/assets/sass/**/*.scss''], run = [''sass'']\<rparr>,
        \<lparr>watch = [''./resources/assets/app/**/*.js'', ''./resources/assets/app/**/*.html''],
           run = [''app'']\<rparr>,
        \<lparr>watch = [''./resources/assets/js/**/*.js''], run = [''vendors'']\<rparr>]"
    using t [THEN conjunct1] by simp
  have r: "tasks_on_change glob_match
       [\<lparr>watch = [''./resources/assets/sass/**/*.scss''], run = [''sass'']\<rparr>,
        \<lparr>watch = [''./resources/assets/app/**/*.js'', ''./resources/assets/app/**/*.html''],
           run = [''app'']\<rparr>,
        \<lparr>watch = [''./resources/assets/js/**/*.js''], run = [''vendors'']\<rparr>]
       ''./resources/assets/sass/ui/app.scss'' = [''sass'']"
    using t [THEN conjunct2, THEN conjunct2, THEN spec, THEN mp] b g1 g2 g3 g4 by simp
  from h1 h2 h3 g1 g2 g3 g4 b r show ?thesis by (intro conjI)
qed



lemma wild_literal: "CHR ''*'' \<notin> set g \<Longrightarrow> wild g s = (s = g)"
  by (induction g s rule: wild.induct) auto

lemma segs_literal:
  "\<forall>g \<in> set gs. CHR ''*'' \<notin> set g \<Longrightarrow> segs_match gs ss = (ss = gs)"
proof (induction gs ss rule: segs_match.induct)
  case (3 g gs)
  then have "g \<noteq> ''**''" by auto
  then show ?case by simp
next
  case (4 g gs s ss)
  then have "g \<noteq> ''**''" by auto
  with 4 show ?case by (auto simp: wild_literal)
qed simp_all

lemma split_path_nonempty: "split_path p \<noteq> []"
  by (induction p) (auto split: list.splits)

lemma split_path_cons:
  "split_path (x # a) =
     (if x = CHR ''/'' then [] # split_path a
      else (x # hd (split_path a)) # tl (split_path a))"
  by (simp add: split_path_nonempty split: list.splits)

lemma split_path_inj: "split_path a = split_path b \<Longrightarrow> a = b"
proof (induction a arbitrary: b)
  case Nil
  show ?case
  proof (cases b)
    case Nil
    then show ?thesis by simp
  next
    case (Cons y b')
    have "split_path (y # b') \<noteq> [[]]"
      using split_path_nonempty[of b'] by (simp only: split_path_cons) auto
    with Nil.prems Cons show ?thesis by simp
  qed
next
  case step: (Cons x a)
  show ?case
  proof (cases b)
    case Nil
    have "split_path (x # a) \<noteq> [[]]"
      using split_path_nonempty[of a] by (simp only: split_path_cons) auto
    with step.prems Nil show ?thesis by simp
  next
    case (Cons y b')
    from step.prems Cons have e: "split_path (x # a) = split_path (y # b')" by simp
    have na: "split_path a \<noteq> []" and nb: "split_path b' \<noteq> []" by (rule split_path_nonempty)+
    from e have "x = y \<and> split_path a = split_path b'"
      unfolding split_path_cons using na nb
      by (auto split: if_splits simp: neq_Nil_conv)
    with step.IH[of b'] Cons show ?thesis by simp
  qed
qed

lemma split_path_star: "CHR ''*'' \<notin> set g \<Longrightarrow> \<forall>s \<in> set (split_path g). CHR ''*'' \<notin> set s"
  by (induction g) (auto split: list.splits)

lemma glob_literal: "CHR ''*'' \<notin> set g \<Longrightarrow> glob_match g p = (p = g)"
  using segs_literal[OF split_path_star, of g "split_path p"] split_path_inj
  by (auto simp: glob_match_def)

text \<open>
  C10. The reload binding watches the three literal paths, the same for every
  configuration. With a matcher under which each of them matches only itself, a change
  reloads the browser exactly when it is to one of the three files; a change to
  \<open>./public/css/other.css\<close> does not.
\<close>

theorem reload_watches_three_paths:
  assumes "\<And>g q. g \<in> set reload_paths \<Longrightarrow> m g q = (q = g)"
  shows "reload_paths = [''./public/js/app.js'', ''./public/js/vendors.js'', ''./public/css/app.css'']
     \<and> reload_on_change m c p
        = (p = ''./public/js/app.js'' \<or> p = ''./public/js/vendors.js'' \<or> p = ''./public/css/app.css'')
     \<and> reload_on_change m c' p = reload_on_change m c p
     \<and> \<not> reload_on_change m c ''./public/css/other.css''"
  using assms by (auto simp: reload_on_change_def fires_def reload_paths_def)

theorem reload_watches_three_paths_witness:
  "(\<forall>q. glob_match ''./public/js/app.js'' q = (q = ''./public/js/app.js''))
   \<and> (\<forall>q. glob_match ''./public/js/vendors.js'' q = (q = ''./public/js/vendors.js''))
   \<and> (\<forall>q. glob_match ''./public/css/app.css'' q = (q = ''./public/css/app.css''))
   \<and> reload_on_change glob_match example_merged ''./public/css/app.css''
   \<and> \<not> reload_on_change glob_match example_merged ''./public/css/other.css''"
proof -
  have h: "\<And>g q. g \<in> set reload_paths \<Longrightarrow> glob_match g q = (q = g)"
  proof -
    fix g q assume "g \<in> set reload_paths"
    then have "CHR ''*'' \<notin> set g" by (auto simp: reload_paths_def)
    then show "glob_match g q = (q = g)" by (rule glob_literal)
  qed
  have a: "reload_on_change glob_match example_merged ''./public/css/app.css''"
    using reload_watches_three_paths [OF h, of example_merged "''./public/css/app.css''" example_merged]
    by simp
  have b: "\<not> reload_on_change glob_match example_merged ''./public/css/other.css''"
    using reload_watches_three_paths [OF h, of example_merged "''./public/css/other.css''" example_merged]
    by simp
  have l1: "\<forall>q. glob_match ''./public/js/app.js'' q = (q = ''./public/js/app.js'')"
    using h by (simp add: reload_paths_def)
  have l2: "\<forall>q. glob_match ''./public/js/vendors.js'' q = (q = ''./public/js/vendors.js'')"
    using h by (simp add: reload_paths_def)
  have l3: "\<forall>q. glob_match ''./public/css/app.css'' q = (q = ''./public/css/app.css'')"
    using h by (simp add: reload_paths_def)
  from l1 l2 l3 a b show ?thesis by (intro conjI)
qed

end
